theory Spec2Isabelle
  imports Main "HOL-Library.Char_ord" "HOL-Library.List_Lexorder" "HOL-Library.Multiset"
    "HOL-Library.Word"
begin

unbundle bit_operations_syntax

section \<open>The page program: data\<close>

text \<open>
  Strings are byte lists, as Go's are. The order on \<^typ>\<open>string\<close> is the
  lexicographic order of the bytes' values, which is what Go's \<^verbatim>\<open><\<close> on strings
  computes.

  An entry of the directory listing (\<^verbatim>\<open>os.FileInfo\<close>): the program reads its
  name only; the directory flag is there and never consulted.
\<close>

record FileInfo =
  Name :: string
  IsDir :: bool

text \<open>
  How a run of \<^verbatim>\<open>main\<close> can end short of printing the page: a call of
  \<^verbatim>\<open>os.Exit\<close> (or \<^verbatim>\<open>log.Fatal\<close>) with its status, or the run-time
  panic of a slice read out of range (the index and the length).
\<close>

datatype failure = Exit int | IndexOutOfRange int nat

text \<open>A slice read \<^verbatim>\<open>xs[i]\<close>, with Go's bounds check.\<close>

definition index :: "'a list \<Rightarrow> int \<Rightarrow> failure + 'a" where
  "index xs i =
     (if 0 \<le> i \<and> i < int (length xs) then Inr (xs ! nat i)
      else Inl (IndexOutOfRange i (length xs)))"

section \<open>Library functions the program calls\<close>

text \<open>\<^verbatim>\<open>contains\<close> (page.go, lines 16 to 23).\<close>

fun contains :: "string list \<Rightarrow> string \<Rightarrow> bool" where
  "contains [] e = False"
| "contains (a # s) e = (if a = e then True else contains s e)"

text \<open>
  \<^verbatim>\<open>strings.ToLower\<close>. A string of ASCII bytes only is lower-cased byte by byte:
  the letters A to Z move to a to z and every other byte stays. A string with a byte
  beyond ASCII goes through \<^verbatim>\<open>strings.Map(unicode.ToLower, s)\<close>, which works on
  the library's Unicode tables: it is the parameter \<open>MapLower\<close>, and every
  function that lower-cases carries it.
\<close>

definition lower_byte :: "char \<Rightarrow> char" where
  "lower_byte c =
     (if CHR ''A'' \<le> c \<and> c \<le> CHR ''Z'' then char_of (of_char c + (32 :: nat)) else c)"

definition ToLower :: "(string \<Rightarrow> string) \<Rightarrow> string \<Rightarrow> string" where
  "ToLower MapLower s =
     (if list_all (\<lambda>c. of_char c < (128 :: nat)) s then map lower_byte s else MapLower s)"

text \<open>
  \<^verbatim>\<open>filepath.Ext\<close>: walk back from the end of the path up to a separator; at the
  first dot return the path from there. The first argument is the part of the path
  still to visit, reversed; the second is the part already passed.
\<close>

fun Ext_from :: "string \<Rightarrow> string \<Rightarrow> string" where
  "Ext_from [] passed = []"
| "Ext_from (c # front) passed =
     (if c = CHR ''/'' then []
      else if c = CHR ''.'' then c # passed
      else Ext_from front (c # passed))"

definition Ext :: "string \<Rightarrow> string" where
  "Ext path = Ext_from (rev path) []"

text \<open>
  \<^verbatim>\<open>filepath.Base\<close>: the empty path gives a dot; trailing separators are dropped;
  the last element is kept; a path of separators only gives one separator.
\<close>

definition Base :: "string \<Rightarrow> string" where
  "Base path =
     (if path = [] then ''.''
      else
        let stripped = dropWhile (\<lambda>c. c = CHR ''/'') (rev path);
            element = rev (takeWhile (\<lambda>c. c \<noteq> CHR ''/'') stripped)
        in if element = [] then ''/'' else element)"

text \<open>
  \<^verbatim>\<open>sort.Slice\<close> with the comparison \<^verbatim>\<open>filelist[i].Name() < filelist[j].Name()\<close>.
  Go's sort is not stable; the names of its result are the same whatever order it
  gives to entries of equal names (lemma \<open>sort_Slice_names\<close> below).
\<close>

definition sort_Slice :: "FileInfo list \<Rightarrow> FileInfo list" where
  "sort_Slice filelist = sort_key Name filelist"

section \<open>The steps of main\<close>

text \<open>The zoom (page.go, lines 58 to 71).\<close>

definition validZooms :: "string list" where
  "validZooms = [''scale'', ''orig'']"

definition zoom_of :: "(string \<Rightarrow> string) \<Rightarrow> string list \<Rightarrow> string" where
  "zoom_of MapLower zooms =
     (if length zooms < 1 then ''scale''
      else if length zooms = 1 then
        (let v = zooms ! 0 in
         if contains validZooms (ToLower MapLower v) then v else ''scale'')
      else ''scale'')"

text \<open>The files with an accepted extension (page.go, lines 101 to 108).\<close>

definition validExtensions :: "string list" where
  "validExtensions = [''.jpg'', ''.jpeg'', ''.png'']"

fun collect :: "(string \<Rightarrow> string) \<Rightarrow> FileInfo list \<Rightarrow> FileInfo list \<Rightarrow> FileInfo list" where
  "collect MapLower [] filelist = filelist"
| "collect MapLower (child # children) filelist =
     (let extension = Ext (Name child) in
      collect MapLower children
        (if contains validExtensions (ToLower MapLower extension) then filelist @ [child]
         else filelist))"

definition filelist_of :: "(string \<Rightarrow> string) \<Rightarrow> FileInfo list \<Rightarrow> FileInfo list" where
  "filelist_of MapLower children = sort_Slice (collect MapLower children [])"

text \<open>
  The scan for the requested file (page.go, lines 114 to 119): \<open>i\<close> is the index
  of the next entry, \<open>found\<close> the index kept so far.
\<close>

fun scan :: "string \<Rightarrow> FileInfo list \<Rightarrow> int \<Rightarrow> int \<Rightarrow> int" where
  "scan filename [] i found = found"
| "scan filename (f # fs) i found =
     scan filename fs (i + 1) (if Base filename = Name f then i else found)"

definition found_of :: "string \<Rightarrow> FileInfo list \<Rightarrow> int" where
  "found_of filename filelist = scan filename filelist 0 (- 1)"

text \<open>The neighbours (page.go, lines 127 to 129 and 137 to 139).\<close>

definition prev_of :: "FileInfo list \<Rightarrow> int \<Rightarrow> failure + FileInfo option" where
  "prev_of filelist found =
     (if found > 0 then
        (case index filelist (found - 1) of
           Inl e \<Rightarrow> Inl e
         | Inr prev \<Rightarrow> Inr (Some prev))
      else Inr None)"

definition next_of :: "FileInfo list \<Rightarrow> int \<Rightarrow> failure + FileInfo option" where
  "next_of filelist found =
     (if found < int (length filelist) then
        (case index filelist (found + 1) of
           Inl e \<Rightarrow> Inl e
         | Inr nxt \<Rightarrow> Inr (Some nxt))
      else Inr None)"

text \<open>
  The zoom icon and the image element (page.go, lines 147 to 155); \<open>src\<close> is the
  file name the element refers to.
\<close>

definition zoomButton_image :: "string \<Rightarrow> string \<Rightarrow> string \<times> string" where
  \<open>zoomButton_image zoom src =
     (if zoom = ''scale'' then
        ('' <div class="top-center"><img src="images/minus.png"></div> \<newline>'',
         '' <img src="'' @ src @ ''" class="center-fit" > \<newline>'')
      else
        ('' <div class="top-center"><img src="images/plus.png"></div> \<newline>'',
         '' <img src="'' @ src @ ''" class="center-fit" > \<newline>''))\<close>

text \<open>
  The two navigation buttons (page.go, lines 130 to 134 and 140 to 144); \<open>href\<close>
  is the link to the neighbour, and no neighbour leaves the button empty.
\<close>

definition previousButton_of :: "string option \<Rightarrow> string" where
  \<open>previousButton_of href =
     (case href of
        None \<Rightarrow> []
      | Some h \<Rightarrow>
          '' <div class="center-left">'' @ ''<a href="'' @ h @ ''">'' @
          ''<img src="images/previous.png" >'' @ ''</a>'' @ ''</div> \<newline>'')\<close>

definition nextButton_of :: "string option \<Rightarrow> string" where
  \<open>nextButton_of href =
     (case href of
        None \<Rightarrow> []
      | Some h \<Rightarrow>
          '' <div class="center-right">'' @ ''<a href="'' @ h @ ''">'' @
          ''<img src="images/next.png" >'' @ ''</a>'' @ ''</div> \<newline>'')\<close>

text \<open>The page (page.go, lines 158 to 172).\<close>

definition content_of :: "string \<Rightarrow> string \<Rightarrow> string \<Rightarrow> string \<Rightarrow> string" where
  \<open>content_of img previousButton zoomButton nextButton =
     ''<!DOCTYPE html> \<newline>'' @
     ''<html> \<newline>'' @
     ''<head> \<newline>'' @
     ''<meta name="viewport" content="width=device-width, initial-scale=1.0"> \<newline>'' @
     ''<link rel="stylesheet" type="text/css" href="../css/diary.css"> \<newline>'' @
     ''</head> \<newline>'' @
     ''<body> \<newline>'' @
     ''<div class="imgbox"> \<newline>'' @
     img @
     previousButton @
     zoomButton @
     nextButton @
     ''</div> \<newline>'' @
     ''</body> \<newline>'' @
     ''</html> \<newline>''\<close>

section \<open>The two versions of main\<close>

text \<open>
  What a run reads from outside, after the request URI has been parsed: the values of
  the query parameters \<^verbatim>\<open>zoom\<close> and \<^verbatim>\<open>image\<close>, whether \<^verbatim>\<open>os.Stat\<close> of the
  image file failed, and the listing \<^verbatim>\<open>ioutil.ReadDir\<close> returned for its directory
  (\<open>None\<close> when it returned an error).
\<close>

record request =
  zooms :: "string list"
  files :: "string list"
  stat_failed :: bool
  readdir :: "FileInfo list option"

text \<open>\<^verbatim>\<open>strings.ReplaceAll(s, "\\", "/")\<close>: every backslash becomes a slash.\<close>

definition ReplaceAll_backslash :: "string \<Rightarrow> string" where
  "ReplaceAll_backslash s = map (\<lambda>c. if c = CHR 0x5C then CHR ''/'' else c) s"

text \<open>
  \<^verbatim>\<open>main\<close> of src/cmd/page/page.go, from line 56 on. The result is the page
  printed at line 174, or the way the run ended before. \<open>Dir\<close> stands for
  \<^verbatim>\<open>filepath.Dir\<close> and \<open>MapLower\<close> for the lower-casing beyond ASCII.
\<close>

definition main_page ::
  "(string \<Rightarrow> string) \<Rightarrow> (string \<Rightarrow> string) \<Rightarrow> request \<Rightarrow> failure + string" where
  "main_page MapLower Dir rq =
     (let zoom = zoom_of MapLower (zooms rq) in
      if length (files rq) < 1 then Inl (Exit 1)
      else
        let filename = files rq ! 0 in
        if stat_failed rq then Inl (Exit 1)
        else
          let directory = ReplaceAll_backslash (Dir filename) in
          case readdir rq of
            None \<Rightarrow> Inl (Exit 1)
          | Some children \<Rightarrow>
              let filelist = filelist_of MapLower children;
                  found = found_of filename filelist
              in
                if found < 0 then Inl (Exit 1)
                else
                  case prev_of filelist found of
                    Inl e \<Rightarrow> Inl e
                  | Inr prev \<Rightarrow>
                      (case next_of filelist found of
                         Inl e \<Rightarrow> Inl e
                       | Inr nxt \<Rightarrow>
                           let previousButton =
                                 previousButton_of
                                   (map_option (\<lambda>f. directory @ ''/'' @ Name f) prev);
                               nextButton =
                                 nextButton_of
                                   (map_option (\<lambda>f. directory @ ''/'' @ Name f) nxt);
                               (zoomButton, img) = zoomButton_image zoom filename
                           in Inr (content_of img previousButton zoomButton nextButton)))"

text \<open>
  \<^verbatim>\<open>main\<close> of src/unnamed/part_000, from line 45 on: a failed \<^verbatim>\<open>os.Stat\<close> and a
  file that is not found are written to the error stream and the run goes on.
  \<open>Join\<close> stands for \<^verbatim>\<open>filepath.Join\<close> and \<open>Prefix\<close> for
  \<^verbatim>\<open>config.Prefix\<close>.
\<close>

definition main_part_000 ::
  "(string \<Rightarrow> string) \<Rightarrow> (string \<Rightarrow> string \<Rightarrow> string) \<Rightarrow> string \<Rightarrow> request \<Rightarrow>
   failure + string" where
  "main_part_000 MapLower Join Prefix rq =
     (let zoom = zoom_of MapLower (zooms rq) in
      if length (files rq) < 1 then Inl (Exit 1)
      else
        let filename = files rq ! 0;
            imagefile = Join Prefix filename
        in
          case readdir rq of
            None \<Rightarrow> Inl (Exit 1)
          | Some children \<Rightarrow>
              let filelist = filelist_of MapLower children;
                  found = found_of filename filelist
              in
                case prev_of filelist found of
                  Inl e \<Rightarrow> Inl e
                | Inr prev \<Rightarrow>
                    (case next_of filelist found of
                       Inl e \<Rightarrow> Inl e
                     | Inr nxt \<Rightarrow>
                         let previousButton =
                               previousButton_of (map_option (\<lambda>f. Join Prefix (Name f)) prev);
                             nextButton =
                               nextButton_of (map_option (\<lambda>f. Join Prefix (Name f)) nxt);
                             (zoomButton, img) = zoomButton_image zoom imagefile
                         in Inr (content_of img previousButton zoomButton nextButton)))"

section \<open>The debug module: trace levels\<close>



text \<open>An argument passed as \<^verbatim>\<open>interface{}\<close>: a string, or any other value.\<close>

datatype 'v arg = Str string | Val 'v











section \<open>Auxiliary notions\<close>

text \<open>The test of line 105 of page.go, on one entry of the listing.\<close>

definition accepted :: "(string \<Rightarrow> string) \<Rightarrow> FileInfo \<Rightarrow> bool" where
  "accepted MapLower c = contains validExtensions (ToLower MapLower (Ext (Name c)))"

text \<open>
  The listing of the scenario with two images, and a request for its first image by
  name.
\<close>

definition listing_x_a :: "FileInfo list" where
  "listing_x_a = [\<lparr>Name = ''x.PNG'', IsDir = False\<rparr>, \<lparr>Name = ''a.png'', IsDir = False\<rparr>]"

definition request_a :: request where
  "request_a =
     \<lparr>zooms = [], files = [''a.png''], stat_failed = False, readdir = Some listing_x_a\<rparr>"

text \<open>
  A listing of three images and a text file; and a sorted list of images in which one
  name occurs twice (no directory holds such a list; the code does not exclude it).
\<close>

definition listing_abcd :: "FileInfo list" where
  "listing_abcd =
     [\<lparr>Name = ''a.png'', IsDir = False\<rparr>, \<lparr>Name = ''b.jpg'', IsDir = False\<rparr>,
      \<lparr>Name = ''c.jpeg'', IsDir = False\<rparr>, \<lparr>Name = ''d.txt'', IsDir = False\<rparr>]"

definition filelist_twice :: "FileInfo list" where
  "filelist_twice =
     [\<lparr>Name = ''a.png'', IsDir = False\<rparr>, \<lparr>Name = ''b.png'', IsDir = False\<rparr>,
      \<lparr>Name = ''b.png'', IsDir = True\<rparr>, \<lparr>Name = ''c.png'', IsDir = False\<rparr>]"

text \<open>
  Requests in the directory of x.PNG and a.png: for its last image, for a file that is
  not there, and for a.png with the zoom written in capitals; and a request in an
  empty directory.
\<close>

definition request_x :: request where
  "request_x =
     \<lparr>zooms = [], files = [''x.PNG''], stat_failed = False, readdir = Some listing_x_a\<rparr>"

definition request_z :: request where
  "request_z =
     \<lparr>zooms = [], files = [''z.png''], stat_failed = False, readdir = Some listing_x_a\<rparr>"

definition request_empty :: request where
  "request_empty =
     \<lparr>zooms = [], files = [''z.png''], stat_failed = False, readdir = Some []\<rparr>"

definition request_SCALE :: request where
  "request_SCALE =
     \<lparr>zooms = [''SCALE''], files = [''a.png''], stat_failed = False, readdir = Some listing_x_a\<rparr>"

text \<open>A listing with a directory whose name ends like an image's.\<close>

definition listing_mixed :: "FileInfo list" where
  "listing_mixed =
     [\<lparr>Name = ''a.JPEG'', IsDir = False\<rparr>, \<lparr>Name = ''README'', IsDir = False\<rparr>,
      \<lparr>Name = ''d.png'', IsDir = True\<rparr>, \<lparr>Name = ''notes.txt'', IsDir = False\<rparr>]"

section \<open>Facts about the steps\<close>

text \<open>The order on strings compares the first bytes that differ, by their values.\<close>

lemma string_less_bytewise:
  "(a # x < b # y) \<longleftrightarrow> (of_char a < (of_char b :: nat) \<or> a = b \<and> x < y)"
  "([] < b # y)" "\<not> (x < [])"
  by (simp_all add: less_char_def)

lemma contains_iff: "contains s e \<longleftrightarrow> e \<in> set s"
  by (induction s) auto

lemma collect_filter: "collect MapLower cs acc = acc @ filter (accepted MapLower) cs"
  by (induction cs arbitrary: acc) (simp_all add: accepted_def Let_def)

lemma names_sort_Slice: "map Name (sort_Slice xs) = sort (map Name xs)"
proof -
  have "mset (map Name (sort_key Name xs)) = mset (map Name xs)" by simp
  moreover have "sorted (map Name (sort_key Name xs))" by simp
  ultimately have "sort (map Name xs) = map Name (sort_key Name xs)"
    by (rule properties_for_sort)
  then show ?thesis by (simp add: sort_Slice_def)
qed

text \<open>
  Any order \<^verbatim>\<open>sort.Slice\<close> may leave the entries in (a rearrangement of the list,
  sorted by name) has the names of \<open>sort_Slice\<close>.
\<close>

lemma sort_Slice_names:
  assumes "mset ys = mset xs" and "sorted (map Name ys)"
  shows "map Name ys = map Name (sort_Slice xs)"
proof -
  have "mset (map Name ys) = mset (map Name xs)"
    using assms(1) by (metis mset_map)
  then have "sort (map Name xs) = map Name ys"
    using assms(2) by (rule properties_for_sort)
  then show ?thesis by (simp add: names_sort_Slice)
qed

text \<open>
  The scan either keeps the index it started with, and then no entry has the name, or
  it ends on the last entry that has it.
\<close>

lemma scan_cases:
  "(scan t fs i d = d \<and> Base t \<notin> Name ` set fs) \<or>
   (\<exists>k<length fs. scan t fs i d = i + int k \<and> Name (fs ! k) = Base t \<and>
      (\<forall>j. k < j \<and> j < length fs \<longrightarrow> Name (fs ! j) \<noteq> Base t))"
proof (induction fs arbitrary: i d)
  case Nil
  then show ?case by simp
next
  case (Cons f fs)
  let ?d = "if Base t = Name f then i else d"
  from Cons.IH[of "i + 1" ?d]
  consider (none) "scan t fs (i + 1) ?d = ?d" "Base t \<notin> Name ` set fs"
    | (some) k where "k < length fs" "scan t fs (i + 1) ?d = i + 1 + int k"
        "Name (fs ! k) = Base t" "\<forall>j. k < j \<and> j < length fs \<longrightarrow> Name (fs ! j) \<noteq> Base t"
    by blast
  then show ?case
  proof cases
    case none
    show ?thesis
    proof (cases "Base t = Name f")
      case True
      have "Name (fs ! j) \<noteq> Base t" if "j < length fs" for j
        using none(2) nth_mem[OF that] by (metis imageI)
      then have "\<forall>j. 0 < j \<and> j < length (f # fs) \<longrightarrow> Name ((f # fs) ! j) \<noteq> Base t"
        by (auto simp: nth_Cons split: nat.splits)
      with True none(1) show ?thesis by (intro disjI2 exI[of _ 0]) simp
    next
      case False
      with none show ?thesis by auto
    qed
  next
    case some
    have "\<forall>j. Suc k < j \<and> j < length (f # fs) \<longrightarrow> Name ((f # fs) ! j) \<noteq> Base t"
      using some(4) by (auto simp: nth_Cons split: nat.splits)
    with some(1-3) show ?thesis by (intro disjI2 exI[of _ "Suc k"]) simp
  qed
qed

lemma found_of_cases:
  "(found_of t fl = - 1 \<and> Base t \<notin> Name ` set fl) \<or>
   (\<exists>k<length fl. found_of t fl = int k \<and> Name (fl ! k) = Base t \<and>
      (\<forall>j. k < j \<and> j < length fl \<longrightarrow> Name (fl ! j) \<noteq> Base t))"
  using scan_cases[of t fl 0 "- 1"] by (simp add: found_of_def)

lemma found_of_range:
  "found_of t fl = - 1 \<or> (0 \<le> found_of t fl \<and> found_of t fl < int (length fl))"
  using found_of_cases[of t fl] by auto

lemma accepted_iff:
  "accepted MapLower c \<longleftrightarrow> ToLower MapLower (Ext (Name c)) \<in> {''.jpg'', ''.jpeg'', ''.png''}"
  by (simp add: accepted_def contains_iff validExtensions_def)

lemma set_filelist_of: "set (filelist_of MapLower children) = {c \<in> set children. accepted MapLower c}"
  by (simp add: filelist_of_def sort_Slice_def collect_filter)

text \<open>
  What the guard of line 138 of page.go lets through: the read of the next entry
  succeeds below the last index; at the last index it is out of range; and at the
  sentinel \<open>-1\<close> it reads the first entry.
\<close>

lemma next_of_cases:
  "next_of fl found =
     (if int (length fl) \<le> found then Inr None
      else if 0 \<le> found + 1 \<and> found + 1 < int (length fl) then Inr (Some (fl ! nat (found + 1)))
      else Inl (IndexOutOfRange (found + 1) (length fl)))"
  by (simp add: next_of_def index_def)

lemma next_of_last:
  "fl \<noteq> [] \<Longrightarrow> next_of fl (int (length fl) - 1) = Inl (IndexOutOfRange (int (length fl)) (length fl))"
  by (simp add: next_of_cases)

lemma next_of_not_found:
  "next_of fl (- 1) = (if fl = [] then Inl (IndexOutOfRange 0 0) else Inr (Some (fl ! 0)))"
  by (auto simp add: next_of_cases)

text \<open>The zoom is the value as it was written whenever its lower-casing is valid.\<close>

lemma ToLower_valid: "ToLower MapLower ''scale'' = ''scale''" "ToLower MapLower ''orig'' = ''orig''"
  by code_simp+

lemma zoom_of_lower_case:
  "ToLower MapLower (zoom_of MapLower zs) = ''scale'' \<or> ToLower MapLower (zoom_of MapLower zs) = ''orig''"
  by (auto simp: zoom_of_def Let_def contains_iff validZooms_def ToLower_valid)

lemma zoom_of_cases:
  "zoom_of MapLower zs =
     (if length zs = 1 \<and> ToLower MapLower (zs ! 0) \<in> {''scale'', ''orig''} then zs ! 0
      else ''scale'')"
  by (auto simp: zoom_of_def Let_def contains_iff validZooms_def)

text \<open>
  A zoom value with a byte beyond ASCII is lower-cased by the library's tables; when
  they give orig (as for a value written with U+0130 for its i), the value is valid
  and is kept as written.
\<close>

lemma zoom_of_beyond_ASCII:
  "\<not> list_all (\<lambda>c. of_char c < (128 :: nat)) v \<Longrightarrow> MapLower v = ''orig'' \<Longrightarrow>
   zoom_of MapLower [v] = v"
  by (simp add: zoom_of_def ToLower_def validZooms_def)

text \<open>
  \<^verbatim>\<open>filepath.Ext\<close> on a name without a separator: the part from the last dot on,
  and nothing when the name has no dot.
\<close>

lemma Ext_from_no_dot:
  "CHR ''.'' \<notin> set xs \<Longrightarrow> Ext_from xs passed = []"
  by (induction xs arbitrary: passed) auto

lemma Ext_from_dot:
  "CHR ''.'' \<notin> set ys \<Longrightarrow> CHR ''/'' \<notin> set ys \<Longrightarrow>
   Ext_from (ys @ CHR ''.'' # rest) passed = CHR ''.'' # rev ys @ passed"
  by (induction ys arbitrary: passed) auto

lemma Ext_no_dot: "CHR ''.'' \<notin> set name \<Longrightarrow> Ext name = []"
  by (simp add: Ext_def Ext_from_no_dot)

lemma Ext_last_dot:
  assumes "CHR ''/'' \<notin> set name" and "name = pre @ CHR ''.'' # post" and "CHR ''.'' \<notin> set post"
  shows "Ext name = CHR ''.'' # post"
proof -
  have "Ext name = Ext_from (rev post @ CHR ''.'' # rev pre) []"
    by (simp add: Ext_def assms(2))
  also have "\<dots> = CHR ''.'' # rev (rev post) @ []"
    using assms by (intro Ext_from_dot) auto
  finally show ?thesis by simp
qed

lemma ToLower_Nil_not_valid: "ToLower MapLower [] \<notin> {''.jpg'', ''.jpeg'', ''.png''}"
  by (simp add: ToLower_def)

lemma accepted_last_dot:
  assumes "CHR ''/'' \<notin> set (Name c)"
  shows "accepted MapLower c \<longleftrightarrow>
     (\<exists>pre post. Name c = pre @ CHR ''.'' # post \<and> CHR ''.'' \<notin> set post \<and>
        ToLower MapLower (CHR ''.'' # post) \<in> {''.jpg'', ''.jpeg'', ''.png''})"
proof
  assume acc: "accepted MapLower c"
  then have "Ext (Name c) \<noteq> []"
    using ToLower_Nil_not_valid by (auto simp: accepted_iff)
  then have "CHR ''.'' \<in> set (Name c)"
    using Ext_no_dot by blast
  then obtain pre post where split: "Name c = pre @ CHR ''.'' # post" "CHR ''.'' \<notin> set post"
    by (meson split_list_last)
  then have "Ext (Name c) = CHR ''.'' # post"
    using assms Ext_last_dot by blast
  with acc split show "\<exists>pre post. Name c = pre @ CHR ''.'' # post \<and> CHR ''.'' \<notin> set post \<and>
        ToLower MapLower (CHR ''.'' # post) \<in> {''.jpg'', ''.jpeg'', ''.png''}"
    by (auto simp: accepted_iff)
next
  assume "\<exists>pre post. Name c = pre @ CHR ''.'' # post \<and> CHR ''.'' \<notin> set post \<and>
        ToLower MapLower (CHR ''.'' # post) \<in> {''.jpg'', ''.jpeg'', ''.png''}"
  then obtain pre post where split: "Name c = pre @ CHR ''.'' # post" "CHR ''.'' \<notin> set post"
    and low: "ToLower MapLower (CHR ''.'' # post) \<in> {''.jpg'', ''.jpeg'', ''.png''}"
    by blast
  have "Ext (Name c) = CHR ''.'' # post"
    using assms split by (rule Ext_last_dot)
  with low show "accepted MapLower c" by (simp add: accepted_iff)
qed




section \<open>The trace level\<close>




section \<open>The zoom icon and the image element\<close>

text \<open>
  Claim C9. The image element is the same in both zoom branches (the same source,
  the class center-fit); the zoom decides only whether the icon is minus.png or
  plus.png. So every page that either version of main prints holds that one image
  element, whatever the zoom.
\<close>

theorem image_element_independent_of_zoom:
  \<open>snd (zoomButton_image zoom src) = '' <img src="'' @ src @ ''" class="center-fit" > \<newline>'' \<and>
   fst (zoomButton_image zoom src) =
     (if zoom = ''scale''
      then '' <div class="top-center"><img src="images/minus.png"></div> \<newline>''
      else '' <div class="top-center"><img src="images/plus.png"></div> \<newline>'') \<and>
   (main_page MapLower Dir rq = Inr page \<longrightarrow>
      (\<exists>p n. page =
         content_of ('' <img src="'' @ files rq ! 0 @ ''" class="center-fit" > \<newline>'') p
           (fst (zoomButton_image (zoom_of MapLower (zooms rq)) (files rq ! 0))) n)) \<and>
   (main_part_000 MapLower Join Prefix rq = Inr page \<longrightarrow>
      (\<exists>p n. page =
         content_of ('' <img src="'' @ Join Prefix (files rq ! 0) @ ''" class="center-fit" > \<newline>'') p
           (fst (zoomButton_image (zoom_of MapLower (zooms rq)) (Join Prefix (files rq ! 0)))) n))\<close>
proof (intro conjI impI)
  show \<open>snd (zoomButton_image zoom src) = '' <img src="'' @ src @ ''" class="center-fit" > \<newline>''\<close>
    by (simp add: zoomButton_image_def)
  show \<open>fst (zoomButton_image zoom src) =
     (if zoom = ''scale''
      then '' <div class="top-center"><img src="images/minus.png"></div> \<newline>''
      else '' <div class="top-center"><img src="images/plus.png"></div> \<newline>'')\<close>
    by (simp add: zoomButton_image_def)
next
  assume "main_page MapLower Dir rq = Inr page"
  then show \<open>\<exists>p n. page =
         content_of ('' <img src="'' @ files rq ! 0 @ ''" class="center-fit" > \<newline>'') p
           (fst (zoomButton_image (zoom_of MapLower (zooms rq)) (files rq ! 0))) n\<close>
    by (auto simp: main_page_def Let_def zoomButton_image_def
          split: option.splits sum.splits if_splits)
next
  assume "main_part_000 MapLower Join Prefix rq = Inr page"
  then show \<open>\<exists>p n. page =
         content_of ('' <img src="'' @ Join Prefix (files rq ! 0) @ ''" class="center-fit" > \<newline>'') p
           (fst (zoomButton_image (zoom_of MapLower (zooms rq)) (Join Prefix (files rq ! 0)))) n\<close>
    by (auto simp: main_part_000_def Let_def zoomButton_image_def
          split: option.splits sum.splits if_splits)
qed

text \<open>
  A request for a.png in the directory of x.PNG and a.png: the page holds the image
  element of the claim, with the minus icon of the default zoom.
\<close>

theorem image_element_independent_of_zoom_witness:
  \<open>main_page (\<lambda>s. s) (\<lambda>p. ''.'') request_a =
     Inr (content_of '' <img src="a.png" class="center-fit" > \<newline>'' []
            '' <div class="top-center"><img src="images/minus.png"></div> \<newline>''
            (nextButton_of (Some ''./x.PNG''))) \<and>
   (\<exists>p n. content_of '' <img src="a.png" class="center-fit" > \<newline>'' []
            '' <div class="top-center"><img src="images/minus.png"></div> \<newline>''
            (nextButton_of (Some ''./x.PNG'')) =
          content_of ('' <img src="'' @ files request_a ! 0 @ ''" class="center-fit" > \<newline>'') p
            (fst (zoomButton_image (zoom_of (\<lambda>s. s) (zooms request_a)) (files request_a ! 0))) n)\<close>
proof -
  have run: \<open>main_page (\<lambda>s. s) (\<lambda>p. ''.'') request_a =
     Inr (content_of '' <img src="a.png" class="center-fit" > \<newline>'' []
            '' <div class="top-center"><img src="images/minus.png"></div> \<newline>''
            (nextButton_of (Some ''./x.PNG'')))\<close>
    by code_simp
  have img: \<open>\<exists>p n. content_of '' <img src="a.png" class="center-fit" > \<newline>'' []
            '' <div class="top-center"><img src="images/minus.png"></div> \<newline>''
            (nextButton_of (Some ''./x.PNG'')) =
          content_of ('' <img src="'' @ files request_a ! 0 @ ''" class="center-fit" > \<newline>'') p
            (fst (zoomButton_image (zoom_of (\<lambda>s. s) (zooms request_a)) (files request_a ! 0))) n\<close>
    by (rule image_element_independent_of_zoom
          [THEN conjunct2, THEN conjunct2, THEN conjunct1, THEN mp, OF run])
  from run img show ?thesis by (rule conjI)
qed

section \<open>The scenario of two images\<close>

text \<open>
  Claim C7. For the listing x.PNG, a.png and the target a.png: both entries are kept
  (the extension is matched without regard to case), the sorted names are a.png,
  x.PNG, the target's index is 0, there is no previous neighbour and the next one is
  x.PNG. Both versions of main print the page with the next button alone.
\<close>

theorem scenario_x_PNG_a_png:
  "map Name (filelist_of MapLower listing_x_a) = [''a.png'', ''x.PNG''] \<and>
   found_of ''a.png'' (filelist_of MapLower listing_x_a) = 0 \<and>
   prev_of (filelist_of MapLower listing_x_a) (found_of ''a.png'' (filelist_of MapLower listing_x_a)) = Inr None \<and>
   next_of (filelist_of MapLower listing_x_a) (found_of ''a.png'' (filelist_of MapLower listing_x_a)) =
     Inr (Some \<lparr>Name = ''x.PNG'', IsDir = False\<rparr>) \<and>
   main_page MapLower Dir request_a =
     Inr (content_of (snd (zoomButton_image ''scale'' ''a.png'')) []
            (fst (zoomButton_image ''scale'' ''a.png''))
            (nextButton_of (Some (ReplaceAll_backslash (Dir ''a.png'') @ ''/'' @ ''x.PNG'')))) \<and>
   main_part_000 MapLower Join Prefix request_a =
     Inr (content_of (snd (zoomButton_image ''scale'' (Join Prefix ''a.png''))) []
            (fst (zoomButton_image ''scale'' (Join Prefix ''a.png'')))
            (nextButton_of (Some (Join Prefix ''x.PNG''))))"
  by code_simp

section \<open>The sorted list and the index of the target\<close>

text \<open>
  Claim C3. For every listing and target, the names of the sorted list are
  non-decreasing in the byte-wise order of strings, every name has an accepted
  extension, and the index of the target, when it is not the sentinel \<open>-1\<close>, is a
  valid index of the list.
\<close>

theorem orderedNames_invariant:
  "sorted (map Name (filelist_of MapLower children)) \<and>
   (\<forall>f\<in>set (filelist_of MapLower children). ToLower MapLower (Ext (Name f)) \<in> {''.jpg'', ''.jpeg'', ''.png''}) \<and>
   (found_of filename (filelist_of MapLower children) \<noteq> - 1 \<longrightarrow>
      0 \<le> found_of filename (filelist_of MapLower children) \<and>
      found_of filename (filelist_of MapLower children) < int (length (filelist_of MapLower children)))"
proof (intro conjI)
  show "sorted (map Name (filelist_of MapLower children))"
    by (simp add: filelist_of_def sort_Slice_def)
  show "\<forall>f\<in>set (filelist_of MapLower children). ToLower MapLower (Ext (Name f)) \<in> {''.jpg'', ''.jpeg'', ''.png''}"
    by (simp add: set_filelist_of accepted_iff)
  show "found_of filename (filelist_of MapLower children) \<noteq> - 1 \<longrightarrow>
      0 \<le> found_of filename (filelist_of MapLower children) \<and>
      found_of filename (filelist_of MapLower children) < int (length (filelist_of MapLower children))"
    using found_of_range[of filename "filelist_of MapLower children"] by blast
qed

text \<open>
  In the listing of three images and a text file, b.jpg is found at index 1 of the
  three sorted names.
\<close>

theorem orderedNames_invariant_witness:
  "found_of ''b.jpg'' (filelist_of (\<lambda>s. s) listing_abcd) \<noteq> - 1 \<and>
   found_of ''b.jpg'' (filelist_of (\<lambda>s. s) listing_abcd) = 1 \<and>
   0 \<le> found_of ''b.jpg'' (filelist_of (\<lambda>s. s) listing_abcd) \<and>
   found_of ''b.jpg'' (filelist_of (\<lambda>s. s) listing_abcd) < int (length (filelist_of (\<lambda>s. s) listing_abcd)) \<and>
   sorted (map Name (filelist_of (\<lambda>s. s) listing_abcd)) \<and>
   map Name (filelist_of (\<lambda>s. s) listing_abcd) = [''a.png'', ''b.jpg'', ''c.jpeg'']"
proof -
  have present: "found_of ''b.jpg'' (filelist_of (\<lambda>s. s) listing_abcd) = 1"
    by code_simp
  have names: "map Name (filelist_of (\<lambda>s. s) listing_abcd) = [''a.png'', ''b.jpg'', ''c.jpeg'']"
    by code_simp
  from orderedNames_invariant[of "\<lambda>s. s" listing_abcd "''b.jpg''"] present names
  show ?thesis by simp
qed

section \<open>The previous neighbour\<close>

text \<open>
  Claim C5. For every listing and target whose index is present: at index 0 there is
  no previous neighbour, and at an index above 0 the previous neighbour is the entry
  one place before, whose name is the name at that place of the sorted names.
\<close>

theorem previous_neighbour:
  "(found_of filename (filelist_of MapLower children) = 0 \<longrightarrow>
      prev_of (filelist_of MapLower children) (found_of filename (filelist_of MapLower children)) = Inr None) \<and>
   (0 < found_of filename (filelist_of MapLower children) \<longrightarrow>
      prev_of (filelist_of MapLower children) (found_of filename (filelist_of MapLower children)) =
        Inr (Some (filelist_of MapLower children ! (nat (found_of filename (filelist_of MapLower children)) - 1))) \<and>
      Name (filelist_of MapLower children ! (nat (found_of filename (filelist_of MapLower children)) - 1)) =
        map Name (filelist_of MapLower children) ! (nat (found_of filename (filelist_of MapLower children)) - 1))"
proof -
  define fl where "fl = filelist_of MapLower children"
  define found where "found = found_of filename fl"
  have r: "found = - 1 \<or> (0 \<le> found \<and> found < int (length fl))"
    unfolding found_def by (rule found_of_range)
  have a: "found = 0 \<longrightarrow> prev_of fl found = Inr None"
    by (simp add: prev_of_def)
  have b: "prev_of fl found = Inr (Some (fl ! (nat found - 1)))" if "0 < found"
    using r that by (simp add: prev_of_def index_def nat_diff_distrib')
  have c: "Name (fl ! (nat found - 1)) = map Name fl ! (nat found - 1)" if "0 < found"
    using r that by (intro nth_map[symmetric]) linarith
  from a b c show ?thesis unfolding found_def fl_def by blast
qed

text \<open>
  The first image of a listing has no previous neighbour; b.jpg, at index 1, has
  a.png.
\<close>

theorem previous_neighbour_witness:
  "found_of ''a.png'' (filelist_of (\<lambda>s. s) listing_x_a) = 0 \<and>
   prev_of (filelist_of (\<lambda>s. s) listing_x_a) (found_of ''a.png'' (filelist_of (\<lambda>s. s) listing_x_a)) = Inr None \<and>
   0 < found_of ''b.jpg'' (filelist_of (\<lambda>s. s) listing_abcd) \<and>
   prev_of (filelist_of (\<lambda>s. s) listing_abcd) (found_of ''b.jpg'' (filelist_of (\<lambda>s. s) listing_abcd)) =
     Inr (Some \<lparr>Name = ''a.png'', IsDir = False\<rparr>)"
proof -
  have first: "found_of ''a.png'' (filelist_of (\<lambda>s. s) listing_x_a) = 0"
    by code_simp
  have second: "0 < found_of ''b.jpg'' (filelist_of (\<lambda>s. s) listing_abcd)"
    by code_simp
  have before:
    "filelist_of (\<lambda>s. s) listing_abcd ! (nat (found_of ''b.jpg'' (filelist_of (\<lambda>s. s) listing_abcd)) - 1) =
       \<lparr>Name = ''a.png'', IsDir = False\<rparr>"
    by code_simp
  from previous_neighbour[of "''a.png''" "\<lambda>s. s" listing_x_a] first
  have none: "prev_of (filelist_of (\<lambda>s. s) listing_x_a) (found_of ''a.png'' (filelist_of (\<lambda>s. s) listing_x_a)) = Inr None"
    by blast
  from previous_neighbour[of "''b.jpg''" "\<lambda>s. s" listing_abcd] second
  have "prev_of (filelist_of (\<lambda>s. s) listing_abcd) (found_of ''b.jpg'' (filelist_of (\<lambda>s. s) listing_abcd)) =
        Inr (Some (filelist_of (\<lambda>s. s) listing_abcd ! (nat (found_of ''b.jpg'' (filelist_of (\<lambda>s. s) listing_abcd)) - 1)))"
    by blast
  with before first second none show ?thesis by simp
qed

section \<open>The scan for the target\<close>

text \<open>
  Claim C6. The scan compares the base name of the request with each name for
  equality of strings, so the index stays at the sentinel exactly when no entry has
  that very name; and when entries have it, one or several, the index is that of the
  last of them (every later assignment overwrites the earlier one).
\<close>

theorem scan_last_match_wins:
  "(found_of filename filelist = - 1 \<longleftrightarrow> Base filename \<notin> Name ` set filelist) \<and>
   (Base filename \<in> Name ` set filelist \<longrightarrow>
      0 \<le> found_of filename filelist \<and>
      found_of filename filelist < int (length filelist) \<and>
      Name (filelist ! nat (found_of filename filelist)) = Base filename \<and>
      (\<forall>j<length filelist. Name (filelist ! j) = Base filename \<longrightarrow>
         int j \<le> found_of filename filelist))"
proof -
  from found_of_cases[of filename filelist]
  consider (none) "found_of filename filelist = - 1" "Base filename \<notin> Name ` set filelist"
    | (some) k where "k < length filelist" "found_of filename filelist = int k"
        "Name (filelist ! k) = Base filename"
        "\<forall>j. k < j \<and> j < length filelist \<longrightarrow> Name (filelist ! j) \<noteq> Base filename"
    by blast
  then show ?thesis
  proof cases
    case none
    then show ?thesis by simp
  next
    case some
    have in_set: "Base filename \<in> Name ` set filelist"
      using some(1,3) by (metis imageI nth_mem)
    have last: "int j \<le> int k" if "j < length filelist" "Name (filelist ! j) = Base filename" for j
      using some(4) that by (metis not_less of_nat_le_iff)
    show ?thesis using some(1-3) in_set last by simp
  qed
qed

text \<open>
  In a list that holds b.png at the indices 1 and 2, the scan ends at 2; B.png, which
  differs in case only, is not found.
\<close>

theorem scan_last_match_wins_witness:
  "Base ''album/b.png'' \<in> Name ` set filelist_twice \<and>
   found_of ''album/b.png'' filelist_twice = 2 \<and>
   Name (filelist_twice ! 1) = Base ''album/b.png'' \<and>
   Base ''album/B.png'' \<notin> Name ` set filelist_twice \<and>
   found_of ''album/B.png'' filelist_twice = - 1"
proof -
  have occurs: "Base ''album/b.png'' \<in> Name ` set filelist_twice"
    by code_simp
  have idx: "found_of ''album/b.png'' filelist_twice = 2"
    by code_simp
  have other: "Name (filelist_twice ! 1) = Base ''album/b.png''"
    by code_simp
  have absent: "Base ''album/B.png'' \<notin> Name ` set filelist_twice"
    by code_simp
  from scan_last_match_wins[of "''album/B.png''" filelist_twice] absent
  have "found_of ''album/B.png'' filelist_twice = - 1" by blast
  moreover
  from scan_last_match_wins[of "''album/b.png''" filelist_twice] occurs
  have "0 \<le> found_of ''album/b.png'' filelist_twice" by blast
  ultimately show ?thesis using occurs idx other absent by simp
qed

section \<open>The next neighbour\<close>

text \<open>
  Claim C1. The claim: the next neighbour is the entry at the target's index plus one
  when that is an index of the list, and absent otherwise; at the last index nothing
  is read past the end. The code, at the request for x.PNG, the last of the two sorted
  names: the guard \<^verbatim>\<open>found < len(filelist)\<close> holds at index 1 and the read of
  index 2 of a list of length 2 ends both versions of main in a panic.
\<close>

theorem next_at_last_index_reads_past_end:
  "found_of ''x.PNG'' (filelist_of MapLower listing_x_a) = 1 \<and>
   length (filelist_of MapLower listing_x_a) = 2 \<and>
   next_of (filelist_of MapLower listing_x_a) (found_of ''x.PNG'' (filelist_of MapLower listing_x_a)) =
     Inl (IndexOutOfRange 2 2) \<and>
   main_page MapLower Dir request_x = Inl (IndexOutOfRange 2 2) \<and>
   main_part_000 MapLower Join Prefix request_x = Inl (IndexOutOfRange 2 2)"
  by code_simp

section \<open>A target that is not found\<close>

text \<open>
  Claim C4. The claim: a target that is not among the images gives the sentinel
  index and neither neighbour, as a normal result. The code, at the request for z.png
  in the directory of x.PNG and a.png: the index is \<open>-1\<close> and there is no previous
  neighbour, but the guard \<^verbatim>\<open>found < len(filelist)\<close> holds for \<open>-1\<close>, so
  part_000 reads index 0 and prints a next button to a.png; in an empty directory
  that read panics. page.go leaves with status 1 before it reaches the guard.
\<close>

theorem not_found_has_next_or_panics:
  "found_of ''z.png'' (filelist_of MapLower listing_x_a) = - 1 \<and>
   prev_of (filelist_of MapLower listing_x_a) (found_of ''z.png'' (filelist_of MapLower listing_x_a)) = Inr None \<and>
   next_of (filelist_of MapLower listing_x_a) (found_of ''z.png'' (filelist_of MapLower listing_x_a)) =
     Inr (Some \<lparr>Name = ''a.png'', IsDir = False\<rparr>) \<and>
   main_part_000 MapLower Join Prefix request_z =
     Inr (content_of (snd (zoomButton_image ''scale'' (Join Prefix ''z.png''))) []
            (fst (zoomButton_image ''scale'' (Join Prefix ''z.png'')))
            (nextButton_of (Some (Join Prefix ''a.png'')))) \<and>
   main_part_000 MapLower Join Prefix request_empty = Inl (IndexOutOfRange 0 0) \<and>
   main_page MapLower Dir request_z = Inl (Exit 1) \<and>
   main_page MapLower Dir request_empty = Inl (Exit 1)"
  by code_simp

section \<open>The zoom\<close>

text \<open>
  Claim C8. The claim: the zoom is one of scale and orig. The code, at the one zoom
  value SCALE: the value passes the test of validity, which lower-cases it, and is
  kept as written; it is neither scale nor orig, and the comparison with scale fails,
  so the page carries the plus icon.
\<close>

theorem zoom_SCALE_kept_as_written:
  \<open>zoom_of MapLower [''SCALE''] = ''SCALE'' \<and>
   zoom_of MapLower [''SCALE''] \<noteq> ''scale'' \<and> zoom_of MapLower [''SCALE''] \<noteq> ''orig'' \<and>
   fst (zoomButton_image (zoom_of MapLower [''SCALE'']) src) =
     '' <div class="top-center"><img src="images/plus.png"></div> \<newline>'' \<and>
   main_page MapLower Dir request_SCALE =
     Inr (content_of (snd (zoomButton_image ''SCALE'' ''a.png'')) []
            '' <div class="top-center"><img src="images/plus.png"></div> \<newline>''
            (nextButton_of (Some (ReplaceAll_backslash (Dir ''a.png'') @ ''/'' @ ''x.PNG''))))\<close>
  by code_simp

section \<open>The files that are kept\<close>

text \<open>
  Claim C2, as amended. For every listing whose names hold no path separator, the
  list of kept files is exactly the listing's entries, directories among them, whose
  extension (the name from its last dot on), lower-cased, is one of .jpg, .jpeg and
  .png, in the listing's order; the sorted list has the same entries; and an entry
  whose name has no dot is not kept.
\<close>

theorem filter_keeps_directories:
  assumes "\<forall>c\<in>set children. CHR ''/'' \<notin> set (Name c)"
  shows "collect MapLower children [] =
           filter (\<lambda>c. \<exists>pre post. Name c = pre @ CHR ''.'' # post \<and> CHR ''.'' \<notin> set post \<and>
                     ToLower MapLower (CHR ''.'' # post) \<in> {''.jpg'', ''.jpeg'', ''.png''}) children \<and>
         set (filelist_of MapLower children) =
           {c \<in> set children. \<exists>pre post. Name c = pre @ CHR ''.'' # post \<and> CHR ''.'' \<notin> set post \<and>
                     ToLower MapLower (CHR ''.'' # post) \<in> {''.jpg'', ''.jpeg'', ''.png''}} \<and>
         (\<forall>c\<in>set children. CHR ''.'' \<notin> set (Name c) \<longrightarrow> c \<notin> set (filelist_of MapLower children))"
proof (intro conjI)
  have eq: "filter (accepted MapLower) children =
        filter (\<lambda>c. \<exists>pre post. Name c = pre @ CHR ''.'' # post \<and> CHR ''.'' \<notin> set post \<and>
                     ToLower MapLower (CHR ''.'' # post) \<in> {''.jpg'', ''.jpeg'', ''.png''}) children"
    using assms by (intro filter_cong refl accepted_last_dot) blast
  then show "collect MapLower children [] =
           filter (\<lambda>c. \<exists>pre post. Name c = pre @ CHR ''.'' # post \<and> CHR ''.'' \<notin> set post \<and>
                     ToLower MapLower (CHR ''.'' # post) \<in> {''.jpg'', ''.jpeg'', ''.png''}) children"
    by (simp add: collect_filter)
  show "set (filelist_of MapLower children) =
           {c \<in> set children. \<exists>pre post. Name c = pre @ CHR ''.'' # post \<and> CHR ''.'' \<notin> set post \<and>
                     ToLower MapLower (CHR ''.'' # post) \<in> {''.jpg'', ''.jpeg'', ''.png''}}"
  proof -
    have "set (filelist_of MapLower children) = set (filter (accepted MapLower) children)"
      by (simp add: set_filelist_of)
    then show ?thesis unfolding eq by simp
  qed
  show "\<forall>c\<in>set children. CHR ''.'' \<notin> set (Name c) \<longrightarrow> c \<notin> set (filelist_of MapLower children)"
    using ToLower_Nil_not_valid by (auto simp: set_filelist_of accepted_iff Ext_no_dot)
qed

text \<open>
  The claim as it was stated excludes directories; the code never looks at the
  directory flag, and keeps the directory d.png.
\<close>

theorem directory_with_image_extension_is_kept:
  "IsDir \<lparr>Name = ''d.png'', IsDir = True\<rparr> \<and>
   \<lparr>Name = ''d.png'', IsDir = True\<rparr> \<in> set (collect (\<lambda>s. s) [\<lparr>Name = ''d.png'', IsDir = True\<rparr>] []) \<and>
   filelist_of (\<lambda>s. s) [\<lparr>Name = ''d.png'', IsDir = True\<rparr>] = [\<lparr>Name = ''d.png'', IsDir = True\<rparr>]"
  by code_simp

text \<open>
  Of an image, a file without a dot, a directory named like an image and a text file,
  the image and the directory are kept.
\<close>

theorem filter_keeps_directories_witness:
  "collect (\<lambda>s. s) listing_mixed [] =
     filter (\<lambda>c. \<exists>pre post. Name c = pre @ CHR ''.'' # post \<and> CHR ''.'' \<notin> set post \<and>
               ToLower (\<lambda>s. s) (CHR ''.'' # post) \<in> {''.jpg'', ''.jpeg'', ''.png''}) listing_mixed \<and>
   collect (\<lambda>s. s) listing_mixed [] =
     [\<lparr>Name = ''a.JPEG'', IsDir = False\<rparr>, \<lparr>Name = ''d.png'', IsDir = True\<rparr>]"
proof -
  have names: "\<forall>c\<in>set listing_mixed. CHR ''/'' \<notin> set (Name c)"
    by code_simp
  have kept: "collect (\<lambda>s. s) listing_mixed [] =
     [\<lparr>Name = ''a.JPEG'', IsDir = False\<rparr>, \<lparr>Name = ''d.png'', IsDir = True\<rparr>]"
    by code_simp
  from filter_keeps_directories[where MapLower = "\<lambda>s. s", OF names] kept show ?thesis by blast
qed

end
